theory Spec2Isabelle
  imports Main "HOL-Library.AList"
begin

section \<open>The allow/deny filter registry (insights/core/blacklist.py)\<close>

text \<open>
  The module keeps five module-level sets.  Two of them hold compiled regular
  expressions, three hold the strings as they were passed in.  The regular
  expression engine is Python's \<open>re\<close> module, which is not part of the
  repository: it is a parameter of the model.  \<open>re_compile\<close> yields \<open>None\<close>
  where \<open>re.compile\<close> raises \<open>re.error\<close>; \<open>re_match r c\<close> says whether
  \<open>r.match(c)\<close> returns a match object.
\<close>

record 'r re_module =
  re_compile :: "string \<Rightarrow> 'r option"
  re_match :: "'r \<Rightarrow> string \<Rightarrow> bool"

record 'r blacklist =
  FILE_FILTERS :: "'r set"
  COMMAND_FILTERS :: "'r set"
  PATTERN_FILTERS :: "string set"
  REGEX_PATTERN_FILTERS :: "string set"
  KEYWORD_FILTERS :: "string set"

datatype bl_error = ReError

definition bl_initial :: "'r blacklist" where
  "bl_initial = \<lparr>FILE_FILTERS = {}, COMMAND_FILTERS = {}, PATTERN_FILTERS = {},
     REGEX_PATTERN_FILTERS = {}, KEYWORD_FILTERS = {}\<rparr>"

definition add_file :: "'r re_module \<Rightarrow> string \<Rightarrow> 'r blacklist \<Rightarrow> bl_error + 'r blacklist" where
  "add_file re f bl =
     (case re_compile re f of
        None \<Rightarrow> Inl ReError
      | Some r \<Rightarrow> Inr (bl\<lparr>FILE_FILTERS := insert r (FILE_FILTERS bl)\<rparr>))"

definition add_command :: "'r re_module \<Rightarrow> string \<Rightarrow> 'r blacklist \<Rightarrow> bl_error + 'r blacklist" where
  "add_command re f bl =
     (case re_compile re f of
        None \<Rightarrow> Inl ReError
      | Some r \<Rightarrow> Inr (bl\<lparr>COMMAND_FILTERS := insert r (COMMAND_FILTERS bl)\<rparr>))"

definition add_pattern :: "string \<Rightarrow> 'r blacklist \<Rightarrow> 'r blacklist" where
  "add_pattern f bl = bl\<lparr>PATTERN_FILTERS := insert f (PATTERN_FILTERS bl)\<rparr>"

definition add_regex_pattern :: "string \<Rightarrow> 'r blacklist \<Rightarrow> 'r blacklist" where
  "add_regex_pattern f bl = bl\<lparr>REGEX_PATTERN_FILTERS := insert f (REGEX_PATTERN_FILTERS bl)\<rparr>"

definition add_keyword :: "string \<Rightarrow> 'r blacklist \<Rightarrow> 'r blacklist" where
  "add_keyword f bl = bl\<lparr>KEYWORD_FILTERS := insert f (KEYWORD_FILTERS bl)\<rparr>"

definition allow_file :: "'r re_module \<Rightarrow> 'r blacklist \<Rightarrow> string \<Rightarrow> bool" where
  "allow_file re bl c = (\<not> (\<exists>f \<in> FILE_FILTERS bl. re_match re f c))"

definition allow_command :: "'r re_module \<Rightarrow> 'r blacklist \<Rightarrow> string \<Rightarrow> bool" where
  "allow_command re bl c = (\<not> (\<exists>f \<in> COMMAND_FILTERS bl. re_match re f c))"

definition get_disallowed_patterns :: "'r blacklist \<Rightarrow> string set" where
  "get_disallowed_patterns bl = PATTERN_FILTERS bl"

definition get_disallowed_regex_patterns :: "'r blacklist \<Rightarrow> string set" where
  "get_disallowed_regex_patterns bl = REGEX_PATTERN_FILTERS bl"

definition get_disallowed_keywords :: "'r blacklist \<Rightarrow> string set" where
  "get_disallowed_keywords bl = KEYWORD_FILTERS bl"

text \<open>
  A history of the registry is a sequence of calls of the five \<open>add_*\<close>
  functions.  A call that raises leaves the module-level sets as they were.
\<close>

datatype bl_call =
    AddFile string
  | AddCommand string
  | AddPattern string
  | AddRegexPattern string
  | AddKeyword string

fun bl_call_step :: "'r re_module \<Rightarrow> bl_call \<Rightarrow> 'r blacklist \<Rightarrow> 'r blacklist" where
  "bl_call_step re (AddFile f) bl = (case add_file re f bl of Inl e \<Rightarrow> bl | Inr bl' \<Rightarrow> bl')"
| "bl_call_step re (AddCommand f) bl = (case add_command re f bl of Inl e \<Rightarrow> bl | Inr bl' \<Rightarrow> bl')"
| "bl_call_step re (AddPattern f) bl = add_pattern f bl"
| "bl_call_step re (AddRegexPattern f) bl = add_regex_pattern f bl"
| "bl_call_step re (AddKeyword f) bl = add_keyword f bl"

fun bl_calls :: "'r re_module \<Rightarrow> bl_call list \<Rightarrow> 'r blacklist \<Rightarrow> 'r blacklist" where
  "bl_calls re [] bl = bl"
| "bl_calls re (x # xs) bl = bl_calls re xs (bl_call_step re x bl)"

text \<open>A toy engine used for concrete runs: a pattern is a literal prefix.\<close>

definition prefix_re :: "string re_module" where
  "prefix_re = \<lparr>re_compile = (\<lambda>p. if p = [] then None else Some p),
                 re_match = (\<lambda>r c. take (length r) c = r)\<rparr>"

section \<open>The dependency engine as the shell uses it (insights.core.dr)\<close>

text \<open>
  The shell (insights/shell.py) is a client of the engine module \<open>dr\<close>.  What
  the shell reads from it is collected in a registry record, a parameter of
  the model: the table \<open>dr.DELEGATES\<close>, the run order of the single-host
  group (\<open>dr.run_order(dr.COMPONENTS[dr.GROUPS.single])\<close>), the kind tests of
  \<open>plugins\<close>, the naming helpers and \<open>dr.get_component\<close>.  A component is a
  value of an arbitrary type \<open>'c\<close>; every component is truthy in Python's
  sense.  The naming helpers yield strings (components are classes and
  functions defined in modules).  \<open>matches p\<close> is the query predicate that
  \<open>insights.parsr.query.matches\<close> builds from the pattern \<open>p\<close>.
\<close>

record 'c delegate =
  requires :: "'c list"
  at_least_one :: "'c list list"

record 'c registry =
  DELEGATES :: "('c \<times> 'c delegate) list"
  run_order_single :: "'c list"
  is_datasource :: "'c \<Rightarrow> bool"
  is_rule_condition_incident :: "'c \<Rightarrow> bool"
  is_rule :: "'c \<Rightarrow> bool"
  get_name :: "'c \<Rightarrow> string"
  get_simple_name :: "'c \<Rightarrow> string"
  get_base_module_name :: "'c \<Rightarrow> string"
  get_component :: "string \<Rightarrow> 'c option"
  matches :: "string \<Rightarrow> string \<Rightarrow> bool"

text \<open>
  The broker: three tables keyed by component, in insertion order.  A fault is
  kept as its cause description.  The field \<open>invoked\<close> is a history variable:
  the components whose body the scheduler has called, in call order.
\<close>

record ('c, 'v) broker =
  instances :: "('c \<times> 'v) list"
  exceptions :: "('c \<times> string list) list"
  missing_requirements :: "('c \<times> ('c list \<times> 'c list list)) list"
  invoked :: "'c list"

definition broker_contains :: "('c, 'v) broker \<Rightarrow> 'c \<Rightarrow> bool" where
  "broker_contains b c = (map_of (instances b) c \<noteq> None)"

definition broker_get :: "('c, 'v) broker \<Rightarrow> 'c \<Rightarrow> 'v option" where
  "broker_get b c = map_of (instances b) c"

definition resolved :: "('c, 'v) broker \<Rightarrow> 'c \<Rightarrow> bool" where
  "resolved b c =
     (map_of (instances b) c \<noteq> None \<or> map_of (exceptions b) c \<noteq> None \<or>
      map_of (missing_requirements b) c \<noteq> None)"

text \<open>
  Modelled from the spec: \<open>get_missing_dependencies\<close> of a delegate, which
  lives in the engine module.  The spec (section 4.4, glossary) has a component
  eligible when its requires-all set is contained in the known set and each
  alternative-group intersects it; the function reports what is unmet, and
  nothing (\<open>None\<close>, which is falsy) when all is met.
\<close>

definition get_missing_dependencies ::
  "'c delegate \<Rightarrow> 'c set \<Rightarrow> ('c list \<times> 'c list list) option" where
  "get_missing_dependencies d known =
     (let missing_required = filter (\<lambda>r. r \<notin> known) (requires d);
          missing_at_least_one = filter (\<lambda>g. set g \<inter> known = {}) (at_least_one d)
      in if missing_required \<noteq> [] \<or> missing_at_least_one \<noteq> []
         then Some (missing_required, missing_at_least_one) else None)"

text \<open>
  Modelled from the spec: the broker's three recording operations (section
  4.2).  Each fails with a logic error (\<open>None\<close>) when the component already
  has a value, a fault or a missing-record.
\<close>

definition put :: "'c \<Rightarrow> 'v \<Rightarrow> ('c, 'v) broker \<Rightarrow> ('c, 'v) broker option" where
  "put c v b =
     (if resolved b c then None
      else Some (b\<lparr>instances := AList.update c v (instances b)\<rparr>))"

definition put_fault :: "'c \<Rightarrow> string \<Rightarrow> ('c, 'v) broker \<Rightarrow> ('c, 'v) broker option" where
  "put_fault c e b =
     (if resolved b c then None
      else Some (b\<lparr>exceptions := AList.update c [e] (exceptions b)\<rparr>))"

definition put_missing ::
  "'c \<Rightarrow> 'c list \<Rightarrow> 'c list list \<Rightarrow> ('c, 'v) broker \<Rightarrow> ('c, 'v) broker option" where
  "put_missing c req alo b =
     (if resolved b c then None
      else Some (b\<lparr>missing_requirements := AList.update c (req, alo) (missing_requirements b)\<rparr>))"

text \<open>
  Modelled from the spec: the scheduler \<open>dr.run\<close> (section 4.3), which lives
  in the engine module.  The body of a component is a function of the
  component and the values recorded so far; it yields a value or a fault.
  The targets are closed under dependencies and visited in the registry's run
  order.  For each component: skip it if resolved; record a missing-record if
  its requirements are not met by the values in the broker; otherwise call
  the body and record its value or its fault.  A component without a registry
  entry has no body and is left as it is.  The \<open>None\<close> branches of the three
  recording operations cannot be taken, since the component was just found
  unresolved.
\<close>

definition dependencies_of :: "'c registry \<Rightarrow> 'c \<Rightarrow> 'c list" where
  "dependencies_of R c =
     (case map_of (DELEGATES R) c of
        None \<Rightarrow> []
      | Some d \<Rightarrow> requires d @ concat (at_least_one d))"

fun closure_iter :: "nat \<Rightarrow> 'c registry \<Rightarrow> 'c list \<Rightarrow> 'c list" where
  "closure_iter 0 R cs = cs"
| "closure_iter (Suc n) R cs =
     closure_iter n R (remdups (cs @ concat (map (dependencies_of R) cs)))"

definition transitive_dependencies_of :: "'c registry \<Rightarrow> 'c list \<Rightarrow> 'c list" where
  "transitive_dependencies_of R targets = closure_iter (length (DELEGATES R)) R targets"

definition targets_in_order :: "'c registry \<Rightarrow> 'c list \<Rightarrow> 'c list" where
  "targets_in_order R targets =
     filter (\<lambda>c. c \<in> set (transitive_dependencies_of R targets)) (run_order_single R)"

definition run_component ::
  "'c registry \<Rightarrow> ('c \<Rightarrow> ('c \<times> 'v) list \<Rightarrow> string + 'v) \<Rightarrow> 'c \<Rightarrow> ('c, 'v) broker \<Rightarrow> ('c, 'v) broker" where
  "run_component R body c b =
     (if resolved b c then b
      else case map_of (DELEGATES R) c of
        None \<Rightarrow> b
      | Some d \<Rightarrow>
          (case get_missing_dependencies d (set (map fst (instances b))) of
             Some (req, alo) \<Rightarrow>
               (case put_missing c req alo b of None \<Rightarrow> b | Some b' \<Rightarrow> b')
           | None \<Rightarrow>
               (case body c (instances b) of
                  Inl fault \<Rightarrow>
                    (case put_fault c fault (b\<lparr>invoked := invoked b @ [c]\<rparr>) of
                       None \<Rightarrow> b | Some b' \<Rightarrow> b')
                | Inr v \<Rightarrow>
                    (case put c v (b\<lparr>invoked := invoked b @ [c]\<rparr>) of
                       None \<Rightarrow> b | Some b' \<Rightarrow> b'))))"

fun run_components ::
  "'c registry \<Rightarrow> ('c \<Rightarrow> ('c \<times> 'v) list \<Rightarrow> string + 'v) \<Rightarrow> 'c list \<Rightarrow> ('c, 'v) broker \<Rightarrow> ('c, 'v) broker" where
  "run_components R body [] b = b"
| "run_components R body (c # cs) b = run_components R body cs (run_component R body c b)"

definition dr_run ::
  "'c registry \<Rightarrow> ('c \<Rightarrow> ('c \<times> 'v) list \<Rightarrow> string + 'v) \<Rightarrow> 'c list \<Rightarrow> ('c, 'v) broker \<Rightarrow> ('c, 'v) broker" where
  "dr_run R body targets b = run_components R body (targets_in_order R targets) b"

section \<open>The reachability pass (shell.py, \<open>__get_available_models\<close>)\<close>

text \<open>
  The locals of the function: the broker it was given, the set \<open>state\<close> and
  the dict \<open>models\<close>.  A dict is an association list with distinct keys in
  insertion order: \<open>AList.update\<close> overwrites in place or appends, as a
  Python assignment does, and \<open>AList.delete\<close> is \<open>del\<close>.
\<close>

record ('c, 'v) gam_frame =
  gam_broker :: "('c, 'v) broker"
  gam_state :: "'c set"
  gam_models :: "(string \<times> 'c) list"

definition replace_dots :: "string \<Rightarrow> string" where
  "replace_dots s = map (\<lambda>ch. if ch = CHR ''.'' then CHR ''_'' else ch) s"

definition friendly_name :: "'c registry \<Rightarrow> 'c \<Rightarrow> string" where
  "friendly_name R c =
     (if is_rule_condition_incident R c
      then get_base_module_name R c @ ''_'' @ get_simple_name R c
      else get_simple_name R c)"

definition gam_init :: "('c, 'v) broker \<Rightarrow> ('c, 'v) gam_frame" where
  "gam_init b = \<lparr>gam_broker = b, gam_state = set (map fst (instances b)), gam_models = []\<rparr>"

definition gam_step :: "'c registry \<Rightarrow> 'c \<Rightarrow> ('c, 'v) gam_frame \<Rightarrow> ('c, 'v) gam_frame" where
  "gam_step R c fr =
     (case map_of (DELEGATES R) c of
        None \<Rightarrow> fr
      | Some d \<Rightarrow>
          if is_datasource R c then fr
          else
            (case get_missing_dependencies d (gam_state fr) of
               Some m \<Rightarrow> fr
             | None \<Rightarrow>
                 (let name = friendly_name R c;
                      models = gam_models fr;
                      (name', models') =
                        (case map_of models name of
                           Some prev \<Rightarrow>
                             (replace_dots (get_name R c),
                              AList.delete name
                                (AList.update (replace_dots (get_name R prev)) prev models))
                         | None \<Rightarrow> (name, models))
                  in fr\<lparr>gam_models := AList.update name' c models',
                        gam_state := insert c (gam_state fr)\<rparr>)))"

fun gam_loop :: "'c registry \<Rightarrow> 'c list \<Rightarrow> ('c, 'v) gam_frame \<Rightarrow> ('c, 'v) gam_frame" where
  "gam_loop R [] fr = fr"
| "gam_loop R (c # cs) fr = gam_loop R cs (gam_step R c fr)"

definition gam_final :: "'c registry \<Rightarrow> ('c, 'v) broker \<Rightarrow> ('c, 'v) gam_frame" where
  "gam_final R b = gam_loop R (run_order_single R) (gam_init b)"

definition get_available_models :: "'c registry \<Rightarrow> ('c, 'v) broker \<Rightarrow> (string \<times> 'c) list" where
  "get_available_models R b = gam_models (gam_final R b)"

text \<open>
  The algorithm in the words of the spec (section 4.4): walk the run order
  with a known set; a component that passes the test is added to the result
  and to the known set, any other is left out.  \<open>spec_eligible\<close> is the test
  as the spec words it; \<open>admitted\<close> adds the guard of the source, which passes
  over data sources.
\<close>

definition deps_satisfied :: "'c delegate \<Rightarrow> 'c set \<Rightarrow> bool" where
  "deps_satisfied d known =
     (set (requires d) \<subseteq> known \<and> (\<forall>g \<in> set (at_least_one d). set g \<inter> known \<noteq> {}))"


definition admitted :: "'c registry \<Rightarrow> 'c set \<Rightarrow> 'c \<Rightarrow> bool" where
  "admitted R known c =
     (case map_of (DELEGATES R) c of
        None \<Rightarrow> False
      | Some d \<Rightarrow> \<not> is_datasource R c \<and> deps_satisfied d known)"

fun walk :: "('c set \<Rightarrow> 'c \<Rightarrow> bool) \<Rightarrow> 'c set \<Rightarrow> 'c list \<Rightarrow> 'c list" where
  "walk ok known [] = []"
| "walk ok known (c # cs) =
     (if ok known c then c # walk ok (insert c known) cs else walk ok known cs)"



section \<open>The selective evaluator (shell.py, class \<open>__Models\<close>)\<close>

text \<open>
  An instance of \<open>__Models\<close> is the dict of available models together with
  \<open>_requested\<close> and \<open>_broker\<close>.  Two history variables are added: the target
  list of every call of \<open>dr.run\<close>, and what was printed.  Coverage tracking
  only brackets the call of \<open>dr.run\<close> and is left out.  The scheduler is a
  parameter of the two operations; it takes its targets as a list, so the
  single component that \<open>evaluate\<close> passes is a one-element list.
\<close>

datatype 'c shell_output =
    Diagnostics 'c
  | ChoseToSkip 'c
  | Listing "(string \<times> 'c) list"

record ('c, 'v) session =
  models :: "(string \<times> 'c) list"
  requested :: "(string \<times> 'c) set"
  sess_broker :: "('c, 'v) broker"
  run_calls :: "'c list list"
  printed :: "'c shell_output list"

type_synonym ('c, 'v) scheduler = "'c list \<Rightarrow> ('c, 'v) broker \<Rightarrow> ('c, 'v) broker"

definition call_dr_run :: "('c, 'v) scheduler \<Rightarrow> 'c list \<Rightarrow> ('c, 'v) session \<Rightarrow> ('c, 'v) session" where
  "call_dr_run sched targets s =
     s\<lparr>sess_broker := sched targets (sess_broker s), run_calls := run_calls s @ [targets]\<rparr>"

definition dump_diagnostics :: "'c \<Rightarrow> ('c, 'v) session \<Rightarrow> ('c, 'v) session" where
  "dump_diagnostics c s = s\<lparr>printed := printed s @ [Diagnostics c]\<rparr>"

text \<open>
  The arguments \<open>match\<close> and \<open>ignore\<close>: \<open>None\<close>, a string, or a query
  predicate already built.
\<close>

datatype pattern = NoPattern | Str string | Query "string \<Rightarrow> bool"

definition desugar_match_ignore ::
  "'c registry \<Rightarrow> ('c, 'v) session \<Rightarrow> pattern \<Rightarrow> pattern \<Rightarrow> (string \<Rightarrow> bool) \<times> (string \<Rightarrow> bool)" where
  "desugar_match_ignore R s match ignore =
     ((case match of
         NoPattern \<Rightarrow> (\<lambda>n. True)
       | Str m \<Rightarrow>
           (case map_of (models s) m of
              Some c \<Rightarrow> (\<lambda>n. n = get_name R c)
            | None \<Rightarrow> matches R m)
       | Query q \<Rightarrow> q),
      (case ignore of
         NoPattern \<Rightarrow> (\<lambda>n. False)
       | Str i \<Rightarrow> matches R i
       | Query q \<Rightarrow> q))"

text \<open>
  \<open>find\<close> only prints.  The listing is recorded with the entries it shows, in
  table order (the source prints them sorted by lower-cased key).
\<close>

definition find_shell ::
  "'c registry \<Rightarrow> pattern \<Rightarrow> pattern \<Rightarrow> ('c, 'v) session \<Rightarrow> ('c, 'v) session" where
  "find_shell R match ignore s =
     (let (m, i) = desugar_match_ignore R s match ignore
      in s\<lparr>printed := printed s @
             [Listing (filter (\<lambda>(p, c). m (get_name R c) \<and> \<not> i (get_name R c)) (models s))]\<rparr>)"

definition evaluate_all_tasks ::
  "'c registry \<Rightarrow> (string \<Rightarrow> bool) \<Rightarrow> (string \<Rightarrow> bool) \<Rightarrow> ('c, 'v) session \<Rightarrow> 'c list" where
  "evaluate_all_tasks R m i s =
     filter (\<lambda>c. m (get_name R c) \<and> \<not> i (get_name R c) \<and>
                 \<not> (map_of (instances (sess_broker s)) c \<noteq> None \<or>
                    map_of (exceptions (sess_broker s)) c \<noteq> None \<or>
                    map_of (missing_requirements (sess_broker s)) c \<noteq> None))
       (map snd (models s))"

definition evaluate_all ::
  "'c registry \<Rightarrow> ('c, 'v) scheduler \<Rightarrow> pattern \<Rightarrow> pattern \<Rightarrow> ('c, 'v) session \<Rightarrow> ('c, 'v) session" where
  "evaluate_all R sched match ignore s =
     (let (m, i) = desugar_match_ignore R s match ignore;
          tasks = evaluate_all_tasks R m i s
      in if tasks = [] then s
         else find_shell R (Query m) (Query i) (call_dr_run sched tasks s))"

definition lookup_component :: "'c registry \<Rightarrow> ('c, 'v) session \<Rightarrow> string \<Rightarrow> 'c option" where
  "lookup_component R s name =
     (case map_of (models s) name of Some c \<Rightarrow> Some c | None \<Rightarrow> get_component R name)"

text \<open>
  \<open>evaluate\<close> returns a Python value or \<open>None\<close>; the result \<open>None\<close> of the
  model is Python's \<open>None\<close>.
\<close>

definition evaluate ::
  "'c registry \<Rightarrow> ('c, 'v) scheduler \<Rightarrow> string \<Rightarrow> ('c, 'v) session \<Rightarrow> 'v option \<times> ('c, 'v) session" where
  "evaluate R sched name s =
     (case lookup_component R s name of
        None \<Rightarrow> (None, s)
      | Some c \<Rightarrow>
          (let s1 = (if \<not> is_rule R c then s\<lparr>requested := insert (name, c) (requested s)\<rparr> else s)
           in if broker_contains (sess_broker s1) c then (broker_get (sess_broker s1) c, s1)
              else if map_of (exceptions (sess_broker s1)) c \<noteq> None \<or>
                      map_of (missing_requirements (sess_broker s1)) c \<noteq> None
              then (None, dump_diagnostics c s1)
              else
                (let s2 = call_dr_run sched [c] s1;
                     val = broker_get (sess_broker s2) c
                 in if \<not> broker_contains (sess_broker s2) c
                    then (if map_of (exceptions (sess_broker s2)) c \<noteq> None \<or>
                             map_of (missing_requirements (sess_broker s2)) c \<noteq> None
                          then (val, dump_diagnostics c s2)
                          else (val, s2\<lparr>printed := printed s2 @ [ChoseToSkip c]\<rparr>))
                    else (val, s2))))"

text \<open>
  What the broker holds for a component, and the test that the bodies invoked
  between two brokers are new ones: the later history extends the earlier, and
  the added invocations are pairwise different and of components that were
  unresolved in the earlier broker.
\<close>

definition entry ::
  "('c, 'v) broker \<Rightarrow> 'c \<Rightarrow> 'v option \<times> string list option \<times> ('c list \<times> 'c list list) option" where
  "entry b c =
     (map_of (instances b) c, map_of (exceptions b) c, map_of (missing_requirements b) c)"

definition fresh_invocations :: "('c, 'v) broker \<Rightarrow> ('c, 'v) broker \<Rightarrow> bool" where
  "fresh_invocations b b' =
     (let new = drop (length (invoked b)) (invoked b')
      in take (length (invoked b)) (invoked b') = invoked b \<and> distinct new \<and>
         (\<forall>x \<in> set new. \<not> resolved b x))"

text \<open>A session is a sequence of calls of the two operations.\<close>

datatype shell_call = Evaluate string | EvaluateAll pattern pattern

fun shell_call_step ::
  "'c registry \<Rightarrow> ('c, 'v) scheduler \<Rightarrow> shell_call \<Rightarrow> ('c, 'v) session \<Rightarrow> ('c, 'v) session" where
  "shell_call_step R sched (Evaluate name) s = snd (evaluate R sched name s)"
| "shell_call_step R sched (EvaluateAll match ignore) s = evaluate_all R sched match ignore s"

fun shell_calls ::
  "'c registry \<Rightarrow> ('c, 'v) scheduler \<Rightarrow> shell_call list \<Rightarrow> ('c, 'v) session \<Rightarrow> ('c, 'v) session" where
  "shell_calls R sched [] s = s"
| "shell_calls R sched (x # xs) s = shell_calls R sched xs (shell_call_step R sched x s)"

definition start_session :: "'c registry \<Rightarrow> ('c, 'v) broker \<Rightarrow> ('c, 'v) session" where
  "start_session R b =
     \<lparr>models = get_available_models R b, requested = {}, sess_broker = b,
      run_calls = [], printed = []\<rparr>"

section \<open>A small registry for concrete runs\<close>

datatype ex_comp = Ctx | Spec1 | Spec2 | Spec3 | ParserA | ParserB | Comb | X1 | X2

fun ex_name :: "ex_comp \<Rightarrow> string" where
  "ex_name Ctx = ''core.context.Ctx''"
| "ex_name Spec1 = ''specs.Specs.one''"
| "ex_name Spec2 = ''specs.Specs.two''"
| "ex_name Spec3 = ''specs.Specs.three''"
| "ex_name ParserA = ''parsers.a.ParserA''"
| "ex_name ParserB = ''parsers.b.ParserB''"
| "ex_name Comb = ''combiners.c.Comb''"
| "ex_name X1 = ''a_b.X''"
| "ex_name X2 = ''a.b.X''"

fun ex_simple_name :: "ex_comp \<Rightarrow> string" where
  "ex_simple_name Ctx = ''Ctx''"
| "ex_simple_name Spec1 = ''one''"
| "ex_simple_name Spec2 = ''two''"
| "ex_simple_name Spec3 = ''three''"
| "ex_simple_name ParserA = ''ParserA''"
| "ex_simple_name ParserB = ''ParserB''"
| "ex_simple_name Comb = ''Comb''"
| "ex_simple_name X1 = ''X''"
| "ex_simple_name X2 = ''X''"

fun ex_base_module_name :: "ex_comp \<Rightarrow> string" where
  "ex_base_module_name Ctx = ''context''"
| "ex_base_module_name Spec1 = ''specs''"
| "ex_base_module_name Spec2 = ''specs''"
| "ex_base_module_name Spec3 = ''specs''"
| "ex_base_module_name ParserA = ''a''"
| "ex_base_module_name ParserB = ''b''"
| "ex_base_module_name Comb = ''c''"
| "ex_base_module_name X1 = ''a_b''"
| "ex_base_module_name X2 = ''b''"

definition ex_registry :: "ex_comp registry" where
  "ex_registry =
     \<lparr>DELEGATES =
        [(Spec1, \<lparr>requires = [], at_least_one = [[Ctx]]\<rparr>),
         (Spec2, \<lparr>requires = [Spec1], at_least_one = []\<rparr>),
         (Spec3, \<lparr>requires = [Spec1], at_least_one = []\<rparr>),
         (ParserA, \<lparr>requires = [Spec2], at_least_one = []\<rparr>),
         (ParserB, \<lparr>requires = [Spec1], at_least_one = []\<rparr>),
         (Comb, \<lparr>requires = [ParserB], at_least_one = [[ParserA, ParserB]]\<rparr>)],
      run_order_single = [Spec1, Spec2, Spec3, ParserA, ParserB, Comb],
      is_datasource = (\<lambda>c. c = Spec1 \<or> c = Spec2 \<or> c = Spec3),
      is_rule_condition_incident = (\<lambda>c. False),
      is_rule = (\<lambda>c. False),
      get_name = ex_name,
      get_simple_name = ex_simple_name,
      get_base_module_name = ex_base_module_name,
      get_component =
        (\<lambda>n. List.find (\<lambda>c. ex_name c = n) [Ctx, Spec1, Spec2, Spec3, ParserA, ParserB, Comb, X1, X2]),
      matches = (\<lambda>p n. take (length p) n = p)\<rparr>"

definition collide_registry :: "ex_comp registry" where
  "collide_registry =
     ex_registry\<lparr>DELEGATES :=
        [(X1, \<lparr>requires = [], at_least_one = []\<rparr>),
         (X2, \<lparr>requires = [], at_least_one = []\<rparr>)],
      run_order_single := [X1, X2]\<rparr>"


definition empty_broker :: "(ex_comp, int) broker" where
  "empty_broker = \<lparr>instances = [], exceptions = [], missing_requirements = [], invoked = []\<rparr>"

definition ex_broker :: "(ex_comp, int) broker" where
  "ex_broker = empty_broker\<lparr>instances := [(Spec1, 1)]\<rparr>"

definition ex_broker_fault :: "(ex_comp, int) broker" where
  "ex_broker_fault = ex_broker\<lparr>exceptions := [(ParserB, [''boom''])]\<rparr>"

definition ex_broker_spec_fault :: "(ex_comp, int) broker" where
  "ex_broker_spec_fault = ex_broker\<lparr>exceptions := [(Spec2, [''boom''])]\<rparr>"

definition ex_body :: "ex_comp \<Rightarrow> (ex_comp \<times> int) list \<Rightarrow> string + int" where
  "ex_body c vals = (if c = ParserA then Inl ''boom'' else Inr (int (length vals)))"

definition ex_session :: "(ex_comp, int) session" where
  "ex_session = start_session ex_registry ex_broker"

definition ex_session_fault :: "(ex_comp, int) session" where
  "ex_session_fault = start_session ex_registry ex_broker_fault"

section \<open>Relations used in the proofs\<close>


definition extends_by :: "('c, 'v) broker \<Rightarrow> ('c, 'v) broker \<Rightarrow> 'c list \<Rightarrow> bool" where
  "extends_by b b' new =
     (invoked b' = invoked b @ new \<and> distinct new \<and>
      (\<forall>x \<in> set new. \<not> resolved b x \<and> resolved b' x) \<and>
      (\<forall>c. resolved b c \<longrightarrow> entry b' c = entry b c))"

subsection \<open>What a history leaves in the five sets\<close>

lemma bl_calls_FILE_FILTERS:
  "FILE_FILTERS (bl_calls re xs bl) =
     FILE_FILTERS bl \<union> {r. \<exists>p. AddFile p \<in> set xs \<and> re_compile re p = Some r}"
proof (induction xs arbitrary: bl)
  case Nil
  show ?case by simp
next
  case (Cons x xs)
  show ?case
    by (cases x)
       (auto simp: Cons.IH add_file_def add_command_def add_pattern_def
          add_regex_pattern_def add_keyword_def split: option.splits)
qed

lemma bl_calls_COMMAND_FILTERS:
  "COMMAND_FILTERS (bl_calls re xs bl) =
     COMMAND_FILTERS bl \<union> {r. \<exists>p. AddCommand p \<in> set xs \<and> re_compile re p = Some r}"
proof (induction xs arbitrary: bl)
  case Nil
  show ?case by simp
next
  case (Cons x xs)
  show ?case
    by (cases x)
       (auto simp: Cons.IH add_file_def add_command_def add_pattern_def
          add_regex_pattern_def add_keyword_def split: option.splits)
qed

lemma bl_calls_PATTERN_FILTERS:
  "PATTERN_FILTERS (bl_calls re xs bl) = PATTERN_FILTERS bl \<union> {p. AddPattern p \<in> set xs}"
proof (induction xs arbitrary: bl)
  case Nil
  show ?case by simp
next
  case (Cons x xs)
  show ?case
    by (cases x)
       (auto simp: Cons.IH add_file_def add_command_def add_pattern_def
          add_regex_pattern_def add_keyword_def split: option.splits)
qed

lemma bl_calls_REGEX_PATTERN_FILTERS:
  "REGEX_PATTERN_FILTERS (bl_calls re xs bl) =
     REGEX_PATTERN_FILTERS bl \<union> {p. AddRegexPattern p \<in> set xs}"
proof (induction xs arbitrary: bl)
  case Nil
  show ?case by simp
next
  case (Cons x xs)
  show ?case
    by (cases x)
       (auto simp: Cons.IH add_file_def add_command_def add_pattern_def
          add_regex_pattern_def add_keyword_def split: option.splits)
qed

lemma bl_calls_KEYWORD_FILTERS:
  "KEYWORD_FILTERS (bl_calls re xs bl) = KEYWORD_FILTERS bl \<union> {p. AddKeyword p \<in> set xs}"
proof (induction xs arbitrary: bl)
  case Nil
  show ?case by simp
next
  case (Cons x xs)
  show ?case
    by (cases x)
       (auto simp: Cons.IH add_file_def add_command_def add_pattern_def
          add_regex_pattern_def add_keyword_def split: option.splits)
qed

lemma allow_file_after_calls:
  "allow_file re (bl_calls re xs bl_initial) c =
     (\<forall>p r. AddFile p \<in> set xs \<and> re_compile re p = Some r \<longrightarrow> \<not> re_match re r c)"
  unfolding allow_file_def bl_calls_FILE_FILTERS by (auto simp: bl_initial_def)

lemma allow_command_after_calls:
  "allow_command re (bl_calls re xs bl_initial) c =
     (\<forall>p r. AddCommand p \<in> set xs \<and> re_compile re p = Some r \<longrightarrow> \<not> re_match re r c)"
  unfolding allow_command_def bl_calls_COMMAND_FILTERS by (auto simp: bl_initial_def)

lemma accessors_after_calls:
  "get_disallowed_patterns (bl_calls re xs bl_initial) = {p. AddPattern p \<in> set xs}"
  "get_disallowed_regex_patterns (bl_calls re xs bl_initial) = {p. AddRegexPattern p \<in> set xs}"
  "get_disallowed_keywords (bl_calls re xs bl_initial) = {p. AddKeyword p \<in> set xs}"
  by (simp_all add: get_disallowed_patterns_def get_disallowed_regex_patterns_def
        get_disallowed_keywords_def bl_calls_PATTERN_FILTERS bl_calls_REGEX_PATTERN_FILTERS
        bl_calls_KEYWORD_FILTERS bl_initial_def)

text \<open>
  Claim C7.  After any history of registrations, \<open>allow_file\<close> is true exactly
  when no file pattern that was registered matches the input, \<open>allow_command\<close>
  is true exactly when no registered command pattern matches it, and the three
  accessors return exactly the content patterns, regex patterns and keywords
  that were added.
\<close>

theorem blacklist_contract:
  "(allow_file re (bl_calls re xs bl_initial) c =
      (\<forall>p r. AddFile p \<in> set xs \<and> re_compile re p = Some r \<longrightarrow> \<not> re_match re r c)) \<and>
   (allow_command re (bl_calls re xs bl_initial) c =
      (\<forall>p r. AddCommand p \<in> set xs \<and> re_compile re p = Some r \<longrightarrow> \<not> re_match re r c)) \<and>
   get_disallowed_patterns (bl_calls re xs bl_initial) = {p. AddPattern p \<in> set xs} \<and>
   get_disallowed_regex_patterns (bl_calls re xs bl_initial) = {p. AddRegexPattern p \<in> set xs} \<and>
   get_disallowed_keywords (bl_calls re xs bl_initial) = {p. AddKeyword p \<in> set xs}"
  using allow_file_after_calls [of re xs c] allow_command_after_calls [of re xs c]
    accessors_after_calls [of re xs]
  by blast

theorem blacklist_contract_witness:
  "\<not> allow_file prefix_re
       (bl_calls prefix_re [AddFile ''/etc'', AddCommand ''rm'', AddKeyword ''secret''] bl_initial)
       ''/etc/passwd'' \<and>
   allow_file prefix_re
       (bl_calls prefix_re [AddFile ''/etc'', AddCommand ''rm'', AddKeyword ''secret''] bl_initial)
       ''/var/log'' \<and>
   \<not> allow_command prefix_re
       (bl_calls prefix_re [AddFile ''/etc'', AddCommand ''rm'', AddKeyword ''secret''] bl_initial)
       ''rm -rf'' \<and>
   get_disallowed_keywords
       (bl_calls prefix_re [AddFile ''/etc'', AddCommand ''rm'', AddKeyword ''secret''] bl_initial
          :: string blacklist) = {''secret''} \<and>
   get_disallowed_patterns
       (bl_calls prefix_re [AddFile ''/etc'', AddCommand ''rm'', AddKeyword ''secret''] bl_initial
          :: string blacklist) = {}"
  using blacklist_contract [of prefix_re "[AddFile ''/etc'', AddCommand ''rm'', AddKeyword ''secret'']" "''/etc/passwd''"]
    blacklist_contract [of prefix_re "[AddFile ''/etc'', AddCommand ''rm'', AddKeyword ''secret'']" "''/var/log''"]
    blacklist_contract [of prefix_re "[AddFile ''/etc'', AddCommand ''rm'', AddKeyword ''secret'']" "''rm -rf''"]
  by (simp add: prefix_re_def)

text \<open>
  Claim C8.  Registering a file (command) filter never turns a refused input
  into an allowed one, whether the registration succeeds or raises; and with no
  file (command) filter registered every input is allowed.
\<close>

theorem filters_only_shrink:
  "(\<not> allow_file re bl s \<longrightarrow> \<not> allow_file re (bl_call_step re (AddFile p) bl) s) \<and>
   (\<not> allow_command re bl s \<longrightarrow> \<not> allow_command re (bl_call_step re (AddCommand p) bl) s) \<and>
   (FILE_FILTERS bl = {} \<longrightarrow> allow_file re bl s) \<and>
   (COMMAND_FILTERS bl = {} \<longrightarrow> allow_command re bl s)"
  by (auto simp: allow_file_def allow_command_def add_file_def add_command_def
        split: option.splits)

theorem filters_only_shrink_witness:
  "\<not> allow_file prefix_re (bl_call_step prefix_re (AddFile ''/etc'') bl_initial) ''/etc/passwd'' \<and>
   \<not> allow_file prefix_re
       (bl_call_step prefix_re (AddFile ''/var'')
          (bl_call_step prefix_re (AddFile ''/etc'') bl_initial)) ''/etc/passwd'' \<and>
   \<not> allow_command prefix_re (bl_call_step prefix_re (AddCommand ''rm'') bl_initial) ''rm -rf'' \<and>
   \<not> allow_command prefix_re
       (bl_call_step prefix_re (AddCommand ''dd'')
          (bl_call_step prefix_re (AddCommand ''rm'') bl_initial)) ''rm -rf'' \<and>
   FILE_FILTERS (bl_initial :: string blacklist) = {} \<and>
   allow_file prefix_re bl_initial ''/etc/passwd'' \<and>
   COMMAND_FILTERS (bl_initial :: string blacklist) = {} \<and>
   allow_command prefix_re bl_initial ''rm -rf''"
  using filters_only_shrink [of prefix_re
      "bl_call_step prefix_re (AddFile ''/etc'') bl_initial" "''/etc/passwd''" "''/var''"]
    filters_only_shrink [of prefix_re
      "bl_call_step prefix_re (AddCommand ''rm'') bl_initial" "''rm -rf''" "''dd''"]
    filters_only_shrink [of prefix_re bl_initial "''/etc/passwd''"]
  by (simp add: prefix_re_def bl_initial_def allow_file_def allow_command_def
        add_file_def add_command_def)

section \<open>Properties of the reachability pass\<close>

lemma get_missing_dependencies_None:
  "get_missing_dependencies d known = None \<longleftrightarrow> deps_satisfied d known"
  by (auto simp: get_missing_dependencies_def deps_satisfied_def Let_def filter_empty_conv)

lemma gam_step_not_admitted: "\<not> admitted R (gam_state fr) c \<Longrightarrow> gam_step R c fr = fr"
  by (auto simp: gam_step_def admitted_def get_missing_dependencies_None[symmetric]
      split: option.splits)

lemma gam_step_state:
  "admitted R (gam_state fr) c \<Longrightarrow> gam_state (gam_step R c fr) = insert c (gam_state fr)"
  by (auto simp: gam_step_def admitted_def get_missing_dependencies_None[symmetric] Let_def
      split: option.splits prod.splits)

lemma gam_step_broker: "gam_broker (gam_step R c fr) = gam_broker fr"
  by (auto simp: gam_step_def Let_def split: option.splits prod.splits)

lemma gam_loop_broker: "gam_broker (gam_loop R cs fr) = gam_broker fr"
  by (induction cs arbitrary: fr) (simp_all add: gam_step_broker)

lemma gam_loop_state:
  "gam_state (gam_loop R cs fr) = gam_state fr \<union> set (walk (admitted R) (gam_state fr) cs)"
proof (induction cs arbitrary: fr)
  case Nil
  show ?case by simp
next
  case (Cons c cs)
  show ?case
  proof (cases "admitted R (gam_state fr) c")
    case True
    then show ?thesis by (simp add: Cons.IH gam_step_state)
  next
    case False
    then show ?thesis by (simp add: Cons.IH gam_step_not_admitted)
  qed
qed













lemma walk_admitted:
  "c \<in> set (walk (admitted R) known cs) \<Longrightarrow>
   c \<in> set cs \<and> \<not> is_datasource R c \<and> map_of (DELEGATES R) c \<noteq> None"
proof (induction cs arbitrary: known)
  case Nil
  then show ?case by simp
next
  case (Cons a cs)
  then show ?case
    by (auto simp: admitted_def split: if_splits option.splits)
qed














text \<open>
  Claim C2, as amended.  The walk starts from exactly the components that hold
  a value in the broker.  A component without a value (so also one with only a
  fault or a missing-record) is in the final known set only if the walk itself
  admits it; a data source, an unregistered component, or one outside the run
  order never is.
\<close>

theorem known_set_seed:
  "gam_state (gam_init b) = fst ` set (instances b) \<and>
   (map_of (instances b) c = None \<longrightarrow>
      (c \<in> gam_state (gam_final R b) \<longleftrightarrow>
       c \<in> set (walk (admitted R) (fst ` set (instances b)) (run_order_single R)))) \<and>
   (map_of (instances b) c = None \<longrightarrow>
      is_datasource R c \<or> map_of (DELEGATES R) c = None \<or> c \<notin> set (run_order_single R) \<longrightarrow>
      c \<notin> gam_state (gam_final R b))"
proof -
  have s: "gam_state (gam_final R b) =
      fst ` set (instances b) \<union> set (walk (admitted R) (fst ` set (instances b)) (run_order_single R))"
    using gam_loop_state [of R "run_order_single R" "gam_init b"]
    by (simp add: gam_final_def gam_init_def)
  have n: "map_of (instances b) c = None \<Longrightarrow> c \<notin> fst ` set (instances b)"
    by (simp add: map_of_eq_None_iff)
  show ?thesis
    using s n walk_admitted [of c R "fst ` set (instances b)" "run_order_single R"]
    by (auto simp: gam_init_def)
qed

theorem known_set_seed_witness:
  "map_of (instances ex_broker_spec_fault) Spec2 = None \<and>
   map_of (exceptions ex_broker_spec_fault) Spec2 \<noteq> None \<and>
   is_datasource ex_registry Spec2 \<and>
   Spec2 \<notin> gam_state (gam_init ex_broker_spec_fault) \<and>
   Spec2 \<notin> gam_state (gam_final ex_registry ex_broker_spec_fault)"
proof -
  have h1: "map_of (instances ex_broker_spec_fault) Spec2 = None"
    by (simp add: ex_broker_spec_fault_def ex_broker_def empty_broker_def)
  have h2: "is_datasource ex_registry Spec2"
    by (simp add: ex_registry_def)
  have "Spec2 \<notin> gam_state (gam_final ex_registry ex_broker_spec_fault)"
    using known_set_seed [of ex_broker_spec_fault Spec2 ex_registry] h1 h2 by blast
  moreover have "gam_state (gam_init ex_broker_spec_fault) = fst ` set (instances ex_broker_spec_fault)"
    using known_set_seed [of ex_broker_spec_fault Spec2 ex_registry] by blast
  ultimately show ?thesis
    using h1 h2 by (simp add: ex_broker_spec_fault_def ex_broker_def empty_broker_def)
qed

theorem known_set_seed_counterexample:
  "map_of (instances ex_broker_fault) ParserB = None \<and>
   map_of (exceptions ex_broker_fault) ParserB \<noteq> None \<and>
   ParserB \<notin> gam_state (gam_init ex_broker_fault) \<and>
   ParserB \<in> set (requires (the (map_of (DELEGATES ex_registry) Comb))) \<and>
   ParserB \<in> gam_state (gam_final ex_registry ex_broker_fault) \<and>
   Comb \<in> snd ` set (get_available_models ex_registry ex_broker_fault)"
  by (simp add: get_available_models_def gam_final_def
      gam_init_def gam_step_def get_missing_dependencies_def friendly_name_def
      ex_registry_def ex_broker_fault_def ex_broker_def empty_broker_def)

text \<open>
  Claim C3.  The pass hands back the broker it was given: no entry of the
  three tables is added or removed, and no body is invoked.
\<close>

theorem reachability_frame: "gam_broker (gam_final R b) = b"
  by (simp add: gam_final_def gam_loop_broker gam_init_def)

theorem reachability_frame_witness:
  "gam_broker (gam_final ex_registry ex_broker_fault) = ex_broker_fault \<and>
   exceptions (gam_broker (gam_final ex_registry ex_broker_fault)) = [(ParserB, [''boom''])] \<and>
   invoked (gam_broker (gam_final ex_registry ex_broker_fault)) = []"
  using reachability_frame [of ex_registry ex_broker_fault]
  by (simp add: ex_broker_fault_def ex_broker_def empty_broker_def)

text \<open>
  Claim C9.  Two components with different qualified names, \<open>a_b.X\<close> and
  \<open>a.b.X\<close>, share the friendly name \<open>X\<close>.  Both are admitted, but their
  re-keyed names coincide, so the second assignment overwrites the first and
  the table keeps only the later component.
\<close>

theorem rekey_collision_loses_component:
  "get_name collide_registry X1 \<noteq> get_name collide_registry X2 \<and>
   friendly_name collide_registry X1 = friendly_name collide_registry X2 \<and>
   X1 \<in> gam_state (gam_final collide_registry empty_broker) \<and>
   X2 \<in> gam_state (gam_final collide_registry empty_broker) \<and>
   get_available_models collide_registry empty_broker = [(''a_b_X'', X2)] \<and>
   X1 \<notin> snd ` set (get_available_models collide_registry empty_broker)"
  by (simp add: get_available_models_def gam_final_def
      gam_init_def gam_step_def get_missing_dependencies_def friendly_name_def replace_dots_def
      collide_registry_def ex_registry_def empty_broker_def)

section \<open>Properties of the selective evaluator\<close>

lemma resolved_iff: "resolved b c \<longleftrightarrow> broker_contains b c \<or> map_of (exceptions b) c \<noteq> None \<or>
      map_of (missing_requirements b) c \<noteq> None"
  by (simp add: resolved_def broker_contains_def)

text \<open>
  Claim C4.  For a name the evaluator knows (a key of the model table, or a
  name \<open>dr.get_component\<close> resolves): if the component is already resolved,
  \<open>evaluate\<close> gives back its state without calling the scheduler or touching
  the broker: the value if it has one, and otherwise \<open>None\<close> after printing
  the diagnostics of its fault or missing-record.  If it is unresolved,
  \<open>evaluate\<close> calls the scheduler once, on that component alone, and gives
  back its state in the resulting broker in the same way (saying that the
  component chose to skip when it is still without any entry).  Unless the
  component is a rule, the pair of name and component is noted as requested.
\<close>

theorem evaluate_one:
  "lookup_component R s name = Some c \<Longrightarrow>
   (resolved (sess_broker s) c \<longrightarrow>
      fst (evaluate R sched name s) = broker_get (sess_broker s) c \<and>
      sess_broker (snd (evaluate R sched name s)) = sess_broker s \<and>
      run_calls (snd (evaluate R sched name s)) = run_calls s \<and>
      printed (snd (evaluate R sched name s)) =
        (if broker_contains (sess_broker s) c then printed s
         else printed s @ [Diagnostics c])) \<and>
   (\<not> resolved (sess_broker s) c \<longrightarrow>
      sess_broker (snd (evaluate R sched name s)) = sched [c] (sess_broker s) \<and>
      run_calls (snd (evaluate R sched name s)) = run_calls s @ [[c]] \<and>
      fst (evaluate R sched name s) = broker_get (sched [c] (sess_broker s)) c \<and>
      printed (snd (evaluate R sched name s)) =
        (if broker_contains (sched [c] (sess_broker s)) c then printed s
         else if map_of (exceptions (sched [c] (sess_broker s))) c \<noteq> None \<or>
                 map_of (missing_requirements (sched [c] (sess_broker s))) c \<noteq> None
         then printed s @ [Diagnostics c]
         else printed s @ [ChoseToSkip c])) \<and>
   requested (snd (evaluate R sched name s)) =
     (if is_rule R c then requested s else insert (name, c) (requested s))"
  by (auto simp: evaluate_def Let_def resolved_iff broker_contains_def broker_get_def
      dump_diagnostics_def call_dr_run_def)

text \<open>
  Claim C10, as amended.  A name that is no key of the model table and that
  \<open>dr.get_component\<close> does not resolve to any component, registered or not,
  yields \<open>None\<close>; the session, and so the broker and the record of scheduler
  calls, is as before, and nothing is raised.
\<close>

theorem evaluate_unknown_name:
  "map_of (models s) name = None \<Longrightarrow> get_component R name = None \<Longrightarrow>
   evaluate R sched name s = (None, s)"
  by (simp add: evaluate_def lookup_component_def)

lemma find_shell_frame:
  "run_calls (find_shell R match ignore s) = run_calls s"
  "sess_broker (find_shell R match ignore s) = sess_broker s"
  "models (find_shell R match ignore s) = models s"
  by (simp_all add: find_shell_def split: prod.splits)


lemma resolved_entry: "resolved b c \<longleftrightarrow> entry b c \<noteq> (None, None, None)"
  by (auto simp: resolved_def entry_def)

lemma extends_by_refl: "extends_by b b []"
  by (simp add: extends_by_def)

lemma extends_by_trans:
  assumes "extends_by b b1 n1" and "extends_by b1 b2 n2"
  shows "extends_by b b2 (n1 @ n2)"
proof -
  have keep1: "resolved b c \<Longrightarrow> entry b1 c = entry b c" for c
    using assms(1) by (simp add: extends_by_def)
  have keep2: "resolved b1 c \<Longrightarrow> entry b2 c = entry b1 c" for c
    using assms(2) by (simp add: extends_by_def)
  have mono1: "resolved b c \<Longrightarrow> resolved b1 c" for c
    using keep1 [of c] by (simp add: resolved_entry)
  have mono2: "resolved b1 c \<Longrightarrow> resolved b2 c" for c
    using keep2 [of c] by (simp add: resolved_entry)
  have n1: "x \<in> set n1 \<Longrightarrow> \<not> resolved b x \<and> resolved b1 x" for x
    using assms(1) by (simp add: extends_by_def)
  have n2: "x \<in> set n2 \<Longrightarrow> \<not> resolved b1 x \<and> resolved b2 x" for x
    using assms(2) by (simp add: extends_by_def)
  have "invoked b2 = invoked b @ n1 @ n2"
    using assms by (simp add: extends_by_def)
  moreover have "distinct (n1 @ n2)"
    using assms n1 n2 by (auto simp: extends_by_def)
  moreover have "\<forall>x \<in> set (n1 @ n2). \<not> resolved b x \<and> resolved b2 x"
    using n1 n2 mono1 mono2 by auto
  moreover have "\<forall>c. resolved b c \<longrightarrow> entry b2 c = entry b c"
    using keep1 keep2 mono1 by simp
  ultimately show ?thesis by (simp add: extends_by_def)
qed

lemma resolved_invoked_update [simp]: "resolved (b\<lparr>invoked := i\<rparr>) c = resolved b c"
  by (simp add: resolved_def)

lemma run_component_extends: "\<exists>new. extends_by b (run_component R body x b) new"
proof (cases "resolved b x")
  case True
  then show ?thesis using extends_by_refl [of b] by (auto simp: run_component_def)
next
  case unres: False
  show ?thesis
  proof (cases "map_of (DELEGATES R) x")
    case None
    with unres show ?thesis using extends_by_refl [of b] by (auto simp: run_component_def)
  next
    case (Some d)
    have other: "resolved b c \<Longrightarrow> c \<noteq> x" for c
      using unres by auto
    show ?thesis
    proof (cases "get_missing_dependencies d (set (map fst (instances b)))")
      case (Some m)
      obtain req alo where m: "m = (req, alo)" by (cases m)
      have "extends_by b (run_component R body x b) []"
        using unres \<open>map_of (DELEGATES R) x = Some d\<close> Some m other
        by (auto simp: run_component_def put_missing_def extends_by_def entry_def
            update_conv')
      then show ?thesis ..
    next
      case None
      show ?thesis
      proof (cases "body x (instances b)")
        case (Inl fault)
        have "extends_by b (run_component R body x b) [x]"
          using unres \<open>map_of (DELEGATES R) x = Some d\<close> None Inl other
          by (auto simp: run_component_def put_fault_def extends_by_def entry_def
              update_conv' resolved_def)
        then show ?thesis ..
      next
        case (Inr v)
        have "extends_by b (run_component R body x b) [x]"
          using unres \<open>map_of (DELEGATES R) x = Some d\<close> None Inr other
          by (auto simp: run_component_def put_def extends_by_def entry_def
              update_conv' resolved_def)
        then show ?thesis ..
      qed
    qed
  qed
qed

lemma run_components_extends: "\<exists>new. extends_by b (run_components R body xs b) new"
proof (induction xs arbitrary: b)
  case Nil
  show ?case using extends_by_refl [of b] by auto
next
  case (Cons x xs)
  obtain n1 where "extends_by b (run_component R body x b) n1"
    using run_component_extends [of b R body x] by blast
  moreover obtain n2 where
    "extends_by (run_component R body x b) (run_components R body xs (run_component R body x b)) n2"
    using Cons.IH [of "run_component R body x b"] by blast
  ultimately have "extends_by b (run_components R body (x # xs) b) (n1 @ n2)"
    using extends_by_trans [of b "run_component R body x b" n1 _ n2] by simp
  then show ?case ..
qed

lemma dr_run_extends: "\<exists>new. extends_by b (dr_run R body targets b) new"
  by (simp add: dr_run_def run_components_extends)

lemma evaluate_broker:
  "sess_broker (snd (evaluate R sched name s)) = sess_broker s \<or>
   (\<exists>ts. sess_broker (snd (evaluate R sched name s)) = sched ts (sess_broker s))"
  by (auto simp: evaluate_def Let_def dump_diagnostics_def call_dr_run_def
      split: option.splits)

lemma evaluate_all_broker:
  "sess_broker (evaluate_all R sched match ignore s) = sess_broker s \<or>
   (\<exists>ts. sess_broker (evaluate_all R sched match ignore s) = sched ts (sess_broker s))"
  by (auto simp: evaluate_all_def Let_def find_shell_frame call_dr_run_def split: prod.splits)

lemma shell_call_step_broker:
  "sess_broker (shell_call_step R sched x s) = sess_broker s \<or>
   (\<exists>ts. sess_broker (shell_call_step R sched x s) = sched ts (sess_broker s))"
proof (cases x)
  case (Evaluate name)
  then show ?thesis using evaluate_broker [of R sched name s] by simp
next
  case (EvaluateAll match ignore)
  then show ?thesis using evaluate_all_broker [of R sched match ignore s] by simp
qed

lemma shell_call_step_extends:
  "\<exists>new. extends_by (sess_broker s) (sess_broker (shell_call_step R (dr_run R body) x s)) new"
proof -
  consider (same) "sess_broker (shell_call_step R (dr_run R body) x s) = sess_broker s"
    | (run) ts where "sess_broker (shell_call_step R (dr_run R body) x s) =
        dr_run R body ts (sess_broker s)"
    using shell_call_step_broker [of R "dr_run R body" x s] by blast
  then show ?thesis
  proof cases
    case same
    then show ?thesis using extends_by_refl [of "sess_broker s"] by auto
  next
    case run
    then show ?thesis using dr_run_extends [of "sess_broker s" R body ts] by simp
  qed
qed

lemma shell_calls_extends:
  "\<exists>new. extends_by (sess_broker s) (sess_broker (shell_calls R (dr_run R body) xs s)) new"
proof (induction xs arbitrary: s)
  case Nil
  show ?case using extends_by_refl [of "sess_broker s"] by auto
next
  case (Cons x xs)
  obtain n1 where "extends_by (sess_broker s) (sess_broker (shell_call_step R (dr_run R body) x s)) n1"
    using shell_call_step_extends [of s R body x] by blast
  moreover obtain n2 where
    "extends_by (sess_broker (shell_call_step R (dr_run R body) x s))
       (sess_broker (shell_calls R (dr_run R body) xs (shell_call_step R (dr_run R body) x s))) n2"
    using Cons.IH [of "shell_call_step R (dr_run R body) x s"] by blast
  ultimately have "extends_by (sess_broker s)
      (sess_broker (shell_calls R (dr_run R body) (x # xs) s)) (n1 @ n2)"
    using extends_by_trans [of "sess_broker s"
        "sess_broker (shell_call_step R (dr_run R body) x s)" n1 _ n2] by simp
  then show ?case ..
qed

lemma extends_by_fresh: "extends_by b b' new \<Longrightarrow> fresh_invocations b b'"
  by (simp add: extends_by_def fresh_invocations_def)

text \<open>
  Claim C6.  With the scheduler of the spec, any sequence of \<open>evaluate\<close> and
  \<open>evaluate_all\<close> calls keeps, for every component that was resolved before,
  exactly the entry it had; the bodies invoked along the way are pairwise
  different and belong to components that were unresolved at the start; and
  evaluating a name whose component is already resolved leaves the whole
  broker as it is without calling the scheduler.
\<close>

theorem read_and_extend:
  "(resolved (sess_broker s) c \<longrightarrow>
      entry (sess_broker (shell_calls R (dr_run R body) calls s)) c = entry (sess_broker s) c) \<and>
   fresh_invocations (sess_broker s) (sess_broker (shell_calls R (dr_run R body) calls s)) \<and>
   (lookup_component R s name = Some c \<and> resolved (sess_broker s) c \<longrightarrow>
      sess_broker (snd (evaluate R (dr_run R body) name s)) = sess_broker s \<and>
      run_calls (snd (evaluate R (dr_run R body) name s)) = run_calls s)"
proof -
  obtain new where e: "extends_by (sess_broker s)
      (sess_broker (shell_calls R (dr_run R body) calls s)) new"
    using shell_calls_extends [of s R body calls] by blast
  have "resolved (sess_broker s) c \<longrightarrow>
      entry (sess_broker (shell_calls R (dr_run R body) calls s)) c = entry (sess_broker s) c"
    using e by (simp add: extends_by_def)
  moreover have "fresh_invocations (sess_broker s)
      (sess_broker (shell_calls R (dr_run R body) calls s))"
    using e by (rule extends_by_fresh)
  moreover have "lookup_component R s name = Some c \<and> resolved (sess_broker s) c \<longrightarrow>
      sess_broker (snd (evaluate R (dr_run R body) name s)) = sess_broker s \<and>
      run_calls (snd (evaluate R (dr_run R body) name s)) = run_calls s"
    by (auto simp: evaluate_def Let_def resolved_iff broker_contains_def broker_get_def
        dump_diagnostics_def call_dr_run_def)
  ultimately show ?thesis by blast
qed

lemmas engine_defs =
  dr_run_def targets_in_order_def transitive_dependencies_of_def dependencies_of_def
  run_component_def put_def put_fault_def put_missing_def resolved_def
  get_missing_dependencies_def

lemmas pass_defs =
  get_available_models_def gam_final_def gam_init_def gam_step_def friendly_name_def
  get_missing_dependencies_def

lemmas ex_defs = ex_registry_def ex_broker_def empty_broker_def ex_body_def

lemma ex_registry_fields:
  "is_rule ex_registry c = False"
  "get_name ex_registry = ex_name"
  "get_component ex_registry n =
     List.find (\<lambda>c. ex_name c = n) [Ctx, Spec1, Spec2, Spec3, ParserA, ParserB, Comb, X1, X2]"
  "map_of (DELEGATES ex_registry) Spec3 = Some \<lparr>requires = [Spec1], at_least_one = []\<rparr>"
  "matches ex_registry p n = (take (length p) n = p)"
  by (simp_all add: ex_registry_def)

lemma ex_broker_fields:
  "instances ex_broker = [(Spec1, 1)]"
  "exceptions ex_broker = []"
  "missing_requirements ex_broker = []"
  "invoked ex_broker = []"
  by (simp_all add: ex_broker_def empty_broker_def)

lemma ex_session_fields:
  "models ex_session = [(''ParserB'', ParserB), (''Comb'', Comb)]"
  "sess_broker ex_session = ex_broker"
  "run_calls ex_session = []"
  "requested ex_session = {}"
  "printed ex_session = []"
  by (simp_all add: ex_session_def start_session_def pass_defs ex_defs)

lemma ex_run_Comb:
  "dr_run ex_registry ex_body [Comb] ex_broker =
     \<lparr>instances = [(Spec1, 1), (Spec2, 1), (ParserB, 2), (Comb, 3)],
      exceptions = [(ParserA, [''boom''])], missing_requirements = [],
      invoked = [Spec2, ParserA, ParserB, Comb]\<rparr>"
  by (simp add: engine_defs ex_defs)

lemma ex_run_ParserB:
  "dr_run ex_registry ex_body [ParserB] ex_broker =
     \<lparr>instances = [(Spec1, 1), (ParserB, 1)],
      exceptions = [], missing_requirements = [],
      invoked = [ParserB]\<rparr>"
  by (simp add: engine_defs ex_defs)

lemma ex_run_Comb_after:
  "dr_run ex_registry ex_body [Comb]
     \<lparr>instances = [(Spec1, 1), (ParserB, 1)],
      exceptions = [], missing_requirements = [],
      invoked = [ParserB]\<rparr> =
     \<lparr>instances = [(Spec1, 1), (ParserB, 1), (Spec2, 2), (Comb, 3)],
      exceptions = [(ParserA, [''boom''])], missing_requirements = [],
      invoked = [ParserB, Spec2, ParserA, Comb]\<rparr>"
  by (simp add: engine_defs ex_defs)


lemma ex_session_fault_fields:
  "models ex_session_fault = [(''ParserB'', ParserB), (''Comb'', Comb)]"
  "sess_broker ex_session_fault = ex_broker_fault"
  "run_calls ex_session_fault = []"
  "requested ex_session_fault = {}"
  "printed ex_session_fault = []"
  by (simp_all add: ex_session_fault_def start_session_def pass_defs
      ex_registry_def ex_broker_fault_def ex_broker_def empty_broker_def)

lemma ex_broker_fault_fields:
  "instances ex_broker_fault = [(Spec1, 1)]"
  "exceptions ex_broker_fault = [(ParserB, [''boom''])]"
  "missing_requirements ex_broker_fault = []"
  "invoked ex_broker_fault = []"
  by (simp_all add: ex_broker_fault_def ex_broker_def empty_broker_def)

lemma ex_run_ParserA:
  "dr_run ex_registry ex_body [ParserA] ex_broker =
     \<lparr>instances = [(Spec1, 1), (Spec2, 1)],
      exceptions = [(ParserA, [''boom''])], missing_requirements = [],
      invoked = [Spec2, ParserA]\<rparr>"
  by (simp add: engine_defs ex_defs)

theorem evaluate_one_witness:
  "lookup_component ex_registry ex_session ''Comb'' = Some Comb \<and>
   \<not> resolved (sess_broker ex_session) Comb \<and>
   fst (evaluate ex_registry (dr_run ex_registry ex_body) ''Comb'' ex_session) = Some 3 \<and>
   run_calls (snd (evaluate ex_registry (dr_run ex_registry ex_body) ''Comb'' ex_session)) = [[Comb]] \<and>
   printed (snd (evaluate ex_registry (dr_run ex_registry ex_body) ''Comb'' ex_session)) = [] \<and>
   lookup_component ex_registry ex_session ''specs.Specs.one'' = Some Spec1 \<and>
   resolved (sess_broker ex_session) Spec1 \<and>
   fst (evaluate ex_registry (dr_run ex_registry ex_body) ''specs.Specs.one'' ex_session) = Some 1 \<and>
   run_calls (snd (evaluate ex_registry (dr_run ex_registry ex_body) ''specs.Specs.one'' ex_session)) = [] \<and>
   printed (snd (evaluate ex_registry (dr_run ex_registry ex_body) ''specs.Specs.one'' ex_session)) = [] \<and>
   lookup_component ex_registry ex_session_fault ''ParserB'' = Some ParserB \<and>
   resolved (sess_broker ex_session_fault) ParserB \<and>
   fst (evaluate ex_registry (dr_run ex_registry ex_body) ''ParserB'' ex_session_fault) = None \<and>
   run_calls (snd (evaluate ex_registry (dr_run ex_registry ex_body) ''ParserB'' ex_session_fault)) = [] \<and>
   sess_broker (snd (evaluate ex_registry (dr_run ex_registry ex_body) ''ParserB'' ex_session_fault)) =
     ex_broker_fault \<and>
   printed (snd (evaluate ex_registry (dr_run ex_registry ex_body) ''ParserB'' ex_session_fault)) =
     [Diagnostics ParserB] \<and>
   lookup_component ex_registry ex_session ''parsers.a.ParserA'' = Some ParserA \<and>
   \<not> resolved (sess_broker ex_session) ParserA \<and>
   fst (evaluate ex_registry (dr_run ex_registry ex_body) ''parsers.a.ParserA'' ex_session) = None \<and>
   run_calls (snd (evaluate ex_registry (dr_run ex_registry ex_body) ''parsers.a.ParserA'' ex_session)) =
     [[ParserA]] \<and>
   printed (snd (evaluate ex_registry (dr_run ex_registry ex_body) ''parsers.a.ParserA'' ex_session)) =
     [Diagnostics ParserA] \<and>
   requested (snd (evaluate ex_registry (dr_run ex_registry ex_body) ''parsers.a.ParserA'' ex_session)) =
     {(''parsers.a.ParserA'', ParserA)}"
proof -
  have l1: "lookup_component ex_registry ex_session ''Comb'' = Some Comb"
    by (simp add: ex_session_fields lookup_component_def)
  have u1: "\<not> resolved (sess_broker ex_session) Comb"
    by (simp add: ex_session_fields resolved_def ex_broker_fields)
  have l2: "lookup_component ex_registry ex_session ''specs.Specs.one'' = Some Spec1"
    by (simp add: ex_session_fields lookup_component_def ex_registry_fields)
  have r2: "resolved (sess_broker ex_session) Spec1"
    by (simp add: ex_session_fields resolved_def ex_broker_fields)
  have l3: "lookup_component ex_registry ex_session_fault ''ParserB'' = Some ParserB"
    by (simp add: ex_session_fault_fields lookup_component_def)
  have r3: "resolved (sess_broker ex_session_fault) ParserB"
    by (simp add: ex_session_fault_fields resolved_def ex_broker_fault_fields)
  have l4: "lookup_component ex_registry ex_session ''parsers.a.ParserA'' = Some ParserA"
    by (simp add: ex_session_fields lookup_component_def ex_registry_fields)
  have u4: "\<not> resolved (sess_broker ex_session) ParserA"
    by (simp add: ex_session_fields resolved_def ex_broker_fields)
  have a: "fst (evaluate ex_registry (dr_run ex_registry ex_body) ''Comb'' ex_session) = Some 3 \<and>
      run_calls (snd (evaluate ex_registry (dr_run ex_registry ex_body) ''Comb'' ex_session)) = [[Comb]] \<and>
      printed (snd (evaluate ex_registry (dr_run ex_registry ex_body) ''Comb'' ex_session)) = []"
    using evaluate_one [OF l1, of "dr_run ex_registry ex_body"] u1
    by (simp add: ex_session_fields ex_run_Comb broker_get_def broker_contains_def)
  have b: "fst (evaluate ex_registry (dr_run ex_registry ex_body) ''specs.Specs.one'' ex_session) = Some 1 \<and>
      run_calls (snd (evaluate ex_registry (dr_run ex_registry ex_body) ''specs.Specs.one'' ex_session)) = [] \<and>
      printed (snd (evaluate ex_registry (dr_run ex_registry ex_body) ''specs.Specs.one'' ex_session)) = []"
    using evaluate_one [OF l2, of "dr_run ex_registry ex_body"] r2
    by (simp add: ex_session_fields ex_broker_fields broker_get_def broker_contains_def)
  have c: "fst (evaluate ex_registry (dr_run ex_registry ex_body) ''ParserB'' ex_session_fault) = None \<and>
      run_calls (snd (evaluate ex_registry (dr_run ex_registry ex_body) ''ParserB'' ex_session_fault)) = [] \<and>
      sess_broker (snd (evaluate ex_registry (dr_run ex_registry ex_body) ''ParserB'' ex_session_fault)) =
        ex_broker_fault \<and>
      printed (snd (evaluate ex_registry (dr_run ex_registry ex_body) ''ParserB'' ex_session_fault)) =
        [Diagnostics ParserB]"
    using evaluate_one [OF l3, of "dr_run ex_registry ex_body"] r3
    by (simp add: ex_session_fault_fields ex_broker_fault_fields broker_get_def broker_contains_def)
  have d: "fst (evaluate ex_registry (dr_run ex_registry ex_body) ''parsers.a.ParserA'' ex_session) = None \<and>
      run_calls (snd (evaluate ex_registry (dr_run ex_registry ex_body) ''parsers.a.ParserA'' ex_session)) =
        [[ParserA]] \<and>
      printed (snd (evaluate ex_registry (dr_run ex_registry ex_body) ''parsers.a.ParserA'' ex_session)) =
        [Diagnostics ParserA] \<and>
      requested (snd (evaluate ex_registry (dr_run ex_registry ex_body) ''parsers.a.ParserA'' ex_session)) =
        {(''parsers.a.ParserA'', ParserA)}"
    using evaluate_one [OF l4, of "dr_run ex_registry ex_body"] u4
    by (simp add: ex_session_fields ex_run_ParserA broker_get_def broker_contains_def
        ex_registry_fields)
  show ?thesis
    using l1 u1 l2 r2 l3 r3 l4 u4 a b c d by simp
qed

theorem evaluate_unknown_name_witness:
  "map_of (models ex_session) ''nope'' = None \<and>
   get_component ex_registry ''nope'' = None \<and>
   evaluate ex_registry (dr_run ex_registry ex_body) ''nope'' ex_session = (None, ex_session)"
proof -
  have h1: "map_of (models ex_session) ''nope'' = None"
    by (simp add: ex_session_fields)
  have h2: "get_component ex_registry ''nope'' = None"
    by (simp add: ex_registry_fields)
  show ?thesis
    using evaluate_unknown_name [OF h1 h2, of "dr_run ex_registry ex_body"] h1 h2 by simp
qed

lemma ex_run_Ctx: "dr_run ex_registry ex_body [Ctx] ex_broker = ex_broker"
  by (simp add: engine_defs ex_defs)

theorem evaluate_unknown_name_counterexample:
  "map_of (models ex_session) ''core.context.Ctx'' = None \<and>
   get_component ex_registry ''core.context.Ctx'' = Some Ctx \<and>
   map_of (DELEGATES ex_registry) Ctx = None \<and>
   run_calls (snd (evaluate ex_registry (dr_run ex_registry ex_body) ''core.context.Ctx'' ex_session)) =
     [[Ctx]] \<and>
   requested (snd (evaluate ex_registry (dr_run ex_registry ex_body) ''core.context.Ctx'' ex_session)) =
     {(''core.context.Ctx'', Ctx)} \<and>
   printed (snd (evaluate ex_registry (dr_run ex_registry ex_body) ''core.context.Ctx'' ex_session)) =
     [ChoseToSkip Ctx] \<and>
   snd (evaluate ex_registry (dr_run ex_registry ex_body) ''core.context.Ctx'' ex_session) \<noteq>
     ex_session"
proof -
  have e: "snd (evaluate ex_registry (dr_run ex_registry ex_body) ''core.context.Ctx'' ex_session) =
      ex_session\<lparr>requested := {(''core.context.Ctx'', Ctx)}, run_calls := [[Ctx]],
        printed := [ChoseToSkip Ctx]\<rparr>"
    by (simp add: evaluate_def lookup_component_def ex_session_fields ex_registry_fields Let_def
        broker_contains_def broker_get_def ex_broker_fields call_dr_run_def ex_run_Ctx)
  have "run_calls (ex_session\<lparr>requested := {(''core.context.Ctx'', Ctx)}, run_calls := [[Ctx]],
        printed := [ChoseToSkip Ctx]\<rparr>) \<noteq> run_calls ex_session"
    by (simp add: ex_session_fields)
  then have ne: "ex_session\<lparr>requested := {(''core.context.Ctx'', Ctx)}, run_calls := [[Ctx]],
        printed := [ChoseToSkip Ctx]\<rparr> \<noteq> ex_session"
    by metis
  show ?thesis
    unfolding e using ne
    by (simp add: ex_session_fields ex_registry_fields) (simp add: ex_registry_def)
qed






lemma ex_two_calls:
  "sess_broker (shell_calls ex_registry (dr_run ex_registry ex_body)
      [Evaluate ''ParserB'', Evaluate ''Comb''] ex_session) =
     \<lparr>instances = [(Spec1, 1), (ParserB, 1), (Spec2, 2), (Comb, 3)],
      exceptions = [(ParserA, [''boom''])], missing_requirements = [],
      invoked = [ParserB, Spec2, ParserA, Comb]\<rparr>"
  by (simp add: ex_session_fields evaluate_def lookup_component_def ex_registry_fields Let_def
      broker_contains_def broker_get_def ex_broker_fields call_dr_run_def
      ex_run_ParserB ex_run_Comb_after dump_diagnostics_def)

theorem read_and_extend_witness:
  "resolved (sess_broker ex_session) Spec1 \<and>
   entry (sess_broker (shell_calls ex_registry (dr_run ex_registry ex_body)
      [Evaluate ''ParserB'', Evaluate ''Comb''] ex_session)) Spec1 = (Some 1, None, None) \<and>
   invoked (sess_broker (shell_calls ex_registry (dr_run ex_registry ex_body)
      [Evaluate ''ParserB'', Evaluate ''Comb''] ex_session)) = [ParserB, Spec2, ParserA, Comb] \<and>
   fresh_invocations (sess_broker ex_session)
     (sess_broker (shell_calls ex_registry (dr_run ex_registry ex_body)
        [Evaluate ''ParserB'', Evaluate ''Comb''] ex_session)) \<and>
   lookup_component ex_registry ex_session ''specs.Specs.one'' = Some Spec1 \<and>
   sess_broker (snd (evaluate ex_registry (dr_run ex_registry ex_body) ''specs.Specs.one''
      ex_session)) = ex_broker \<and>
   run_calls (snd (evaluate ex_registry (dr_run ex_registry ex_body) ''specs.Specs.one''
      ex_session)) = []"
proof -
  have l: "lookup_component ex_registry ex_session ''specs.Specs.one'' = Some Spec1"
    by (simp add: ex_session_fields lookup_component_def ex_registry_fields)
  have r: "resolved (sess_broker ex_session) Spec1"
    by (simp add: ex_session_fields resolved_def ex_broker_fields)
  have e: "entry ex_broker Spec1 = (Some 1, None, None)"
    by (simp add: entry_def ex_broker_fields)
  have i: "invoked (sess_broker (shell_calls ex_registry (dr_run ex_registry ex_body)
      [Evaluate ''ParserB'', Evaluate ''Comb''] ex_session)) = [ParserB, Spec2, ParserA, Comb]"
    unfolding ex_two_calls by simp
  show ?thesis
    using read_and_extend [of ex_session Spec1 ex_registry ex_body
        "[Evaluate ''ParserB'', Evaluate ''Comb'']" "''specs.Specs.one''"] l r i
    by (simp add: ex_session_fields e)
qed

end
